theory Spec2Isabelle
  imports Main "HOL-Library.Sublist"
begin

section \<open>Python strings\<close>

text \<open>
  A Python \<open>str\<close> is modelled as a \<open>string\<close>: a list of characters whose code points
  are below 256. \<open>str.strip()\<close> removes the characters for which \<open>str.isspace\<close>
  holds from both ends; in that range they are the code points 9 to 13, 28 to 32, 133 and 160.
\<close>

definition isspace :: "char \<Rightarrow> bool" where
  "isspace c =
     (let n = (of_char c :: nat)
      in (9 \<le> n \<and> n \<le> 13) \<or> (28 \<le> n \<and> n \<le> 32) \<or> n = 133 \<or> n = 160)"

definition lstrip :: "string \<Rightarrow> string" where
  "lstrip s = dropWhile isspace s"

definition rstrip :: "string \<Rightarrow> string" where
  "rstrip s = rev (dropWhile isspace (rev s))"

definition strip :: "string \<Rightarrow> string" where
  "strip s = rstrip (lstrip s)"

text \<open>\<open>s.startswith(p)\<close> is \<^term>\<open>prefix p s\<close>, and \<open>s[:n]\<close> with \<open>n \<ge> 0\<close> is \<^term>\<open>take n s\<close>.\<close>

definition startswith :: "string \<Rightarrow> string \<Rightarrow> bool" where
  "startswith s p = prefix p s"

text \<open>\<open>sub in s\<close> on strings: \<open>sub\<close> occurs in \<open>s\<close> as a contiguous block.\<close>

fun contains :: "string \<Rightarrow> string \<Rightarrow> bool" where
  "contains [] sub = (sub = [])"
| "contains (c # cs) sub = (prefix sub (c # cs) \<or> contains cs sub)"

text \<open>\<open>s.split('\n')\<close>: the pieces between line feeds; there is always at least one piece.\<close>

definition nl :: char where
  "nl = CHR 0x0A"

fun split_nl :: "string \<Rightarrow> string list" where
  "split_nl [] = [[]]"
| "split_nl (c # cs) =
     (if c = nl then [] # split_nl cs
      else (case split_nl cs of [] \<Rightarrow> [[c]] | l # ls \<Rightarrow> (c # l) # ls))"

text \<open>
  \<open>str(n)\<close> for an integer: its decimal digits, with a minus sign when negative.
  \<open>digit_char\<close> is only applied to numbers below ten.
\<close>

definition digit_char :: "nat \<Rightarrow> char" where
  "digit_char d = ''0123456789'' ! d"

function digits :: "nat \<Rightarrow> string" where
  "digits n = (if n < 10 then [digit_char n] else digits (n div 10) @ [digit_char (n mod 10)])"
  by pat_completeness auto
termination
  by (relation "measure id") auto

declare digits.simps [simp del]

definition str_int :: "int \<Rightarrow> string" where
  "str_int i = (if i < 0 then CHR ''-'' # digits (nat (- i)) else digits (nat i))"

section \<open>The inference client\<close>

text \<open>
  The value \<open>response.json()\<close> returns. An object is the parsed \<open>dict\<close>, kept as an
  association list read with \<^const>\<open>map_of\<close>. The program never looks at the value of a
  number, so a float carries only the text of its literal.
\<close>

datatype json =
    JNull
  | JBool bool
  | JInt int
  | JFloat string
  | JStr string
  | JArr "json list"
  | JObj "(string \<times> json) list"

text \<open>The name Python prints for the type of a parsed value in an \<open>AttributeError\<close>.\<close>

fun type_name :: "json \<Rightarrow> string" where
  "type_name JNull = ''NoneType''"
| "type_name (JBool _) = ''bool''"
| "type_name (JInt _) = ''int''"
| "type_name (JFloat _) = ''float''"
| "type_name (JStr _) = ''str''"
| "type_name (JArr _) = ''list''"
| "type_name (JObj _) = ''dict''"

text \<open>
  An exception (a subclass of \<open>Exception\<close>) is the string \<open>str(e)\<close> gives for it.
  What \<open>requests.post\<close> does is the environment's choice: it raises (connection error,
  timeout), or it returns a response with a status code whose \<open>json()\<close> either raises
  (the body is not JSON) or returns a parsed value.
\<close>

datatype exn = Exception string

fun str_exn :: "exn \<Rightarrow> string" where
  "str_exn (Exception msg) = msg"

datatype http_outcome =
    Post_Raises exn
  | Response int "exn + json"

definition apostrophe :: char where
  "apostrophe = CHR 0x27"

definition quoted :: "string \<Rightarrow> string" where
  "quoted s = apostrophe # s @ [apostrophe]"

definition attribute_error :: "json \<Rightarrow> string \<Rightarrow> exn" where
  "attribute_error v attr =
     Exception (quoted (type_name v) @ '' object has no attribute '' @ quoted attr)"

text \<open>\<open>result[0].get('generated_text', '')\<close>: only a \<open>dict\<close> has \<open>get\<close>.\<close>

definition get_generated_text :: "json \<Rightarrow> exn + json" where
  "get_generated_text v =
     (case v of
        JObj kvs \<Rightarrow>
          (case map_of kvs ''generated_text'' of
             None \<Rightarrow> Inr (JStr '''')
           | Some g \<Rightarrow> Inr g)
      | _ \<Rightarrow> Inl (attribute_error v ''get''))"

text \<open>\<open>.strip()\<close> on what \<open>get\<close> returned: only a \<open>str\<close> has \<open>strip\<close>.\<close>

definition strip_value :: "json \<Rightarrow> exn + string" where
  "strip_value v =
     (case v of
        JStr s \<Rightarrow> Inr (strip s)
      | _ \<Rightarrow> Inl (attribute_error v ''strip''))"

text \<open>
  The body of the \<open>try\<close> block of \<open>query_huggingface\<close>, given what the POST did.
  \<open>Inl\<close> is an exception raised inside the block.
\<close>

definition query_huggingface_try :: "string \<Rightarrow> int \<Rightarrow> http_outcome \<Rightarrow> exn + string" where
  "query_huggingface_try prompt max_length outcome =
     (case outcome of
        Post_Raises e \<Rightarrow> Inl e
      | Response status_code body \<Rightarrow>
          if status_code = 200 then
            (case body of
               Inl e \<Rightarrow> Inl e
             | Inr result \<Rightarrow>
                 (case result of
                    JArr (first # _) \<Rightarrow>
                      (case get_generated_text first of
                         Inl e \<Rightarrow> Inl e
                       | Inr g \<Rightarrow>
                           (case strip_value g of
                              Inl e \<Rightarrow> Inl e
                            | Inr generated_text \<Rightarrow>
                                (let generated_text =
                                       (if startswith generated_text prompt
                                        then strip (drop (length prompt) generated_text)
                                        else generated_text)
                                 in Inr (if generated_text \<noteq> [] then generated_text
                                         else ''No response generated''))))
                  | _ \<Rightarrow> Inr ''Invalid response format''))
          else Inr (''API Error: '' @ str_int status_code))"

text \<open>The whole function: \<open>except Exception as e\<close> turns every exception into a string.\<close>

definition query_huggingface :: "string \<Rightarrow> int \<Rightarrow> http_outcome \<Rightarrow> string" where
  "query_huggingface prompt max_length outcome =
     (case query_huggingface_try prompt max_length outcome of
        Inl e \<Rightarrow> ''Error querying API: '' @ str_exn e
      | Inr s \<Rightarrow> s)"

text \<open>
  The decorator \<open>@st.cache_data\<close> memoizes the function for the life of the process. Its
  table is keyed on the arguments as the call passes them, not on the values the body ends
  up with: a call that leaves \<open>max_length\<close> out (\<open>None\<close> below, the body then runs
  with the default 512 of the signature) has an entry of its own, apart from a call that
  passes 512. A call whose arguments are in the table returns the stored string and does
  not run the body; any other call runs the body, which makes one POST, and stores what it
  returned. The process-wide state is the table, the outcomes the network will give to the
  successive POSTs, and the number of POSTs made so far.
\<close>

record world =
  cache :: "(string \<times> int option) \<rightharpoonup> string"
  network :: "nat \<Rightarrow> http_outcome"
  round_trips :: nat

text \<open>The value of the parameter \<open>max_length=512\<close> in the body, for the argument passed.\<close>

definition max_length_of :: "int option \<Rightarrow> int" where
  "max_length_of passed = (case passed of None \<Rightarrow> 512 | Some max_length \<Rightarrow> max_length)"

definition cached_query_huggingface ::
  "string \<Rightarrow> int option \<Rightarrow> world \<Rightarrow> string \<times> world" where
  "cached_query_huggingface prompt passed w =
     (case cache w (prompt, passed) of
        Some s \<Rightarrow> (s, w)
      | None \<Rightarrow>
          (let s = query_huggingface prompt (max_length_of passed) (network w (round_trips w))
           in (s, w\<lparr>cache := (cache w)((prompt, passed) \<mapsto> s),
                     round_trips := Suc (round_trips w)\<rparr>)))"

text \<open>A run of calls of the client, one after the other.\<close>

fun query_all :: "(string \<times> int option) list \<Rightarrow> world \<Rightarrow> world" where
  "query_all [] w = w"
| "query_all ((prompt, passed) # qs) w =
     query_all qs (snd (cached_query_huggingface prompt passed w))"

section \<open>The PDF text extractor\<close>

text \<open>
  What \<open>pypdf\<close> does with an uploaded file is the environment's choice as well:
  \<open>PdfReader\<close> raises, or gives pages, and \<open>extract_text\<close> on a page raises or
  gives that page's text.
\<close>

type_synonym pdf_page = "exn + string"

type_synonym pdf_file = "exn + pdf_page list"

text \<open>The \<open>for\<close> loop of \<open>extract_pdf_text\<close>, with \<open>text\<close> as its accumulator.\<close>

fun extract_pages :: "pdf_page list \<Rightarrow> string \<Rightarrow> exn + string" where
  "extract_pages [] text = Inr text"
| "extract_pages (page # pages) text =
     (case page of
        Inl e \<Rightarrow> Inl e
      | Inr t \<Rightarrow> extract_pages pages (text @ t))"

definition extract_pdf_text_try :: "pdf_file \<Rightarrow> exn + string" where
  "extract_pdf_text_try pdf_file =
     (case pdf_file of
        Inl e \<Rightarrow> Inl e
      | Inr pages \<Rightarrow>
          (case extract_pages pages [] of
             Inl e \<Rightarrow> Inl e
           | Inr text \<Rightarrow> Inr (take 5000 text)))"

definition extract_pdf_text :: "pdf_file \<Rightarrow> string" where
  "extract_pdf_text pdf_file =
     (case extract_pdf_text_try pdf_file of
        Inl _ \<Rightarrow> ''Error extracting PDF text''
      | Inr text \<Rightarrow> text)"

section \<open>The paper analyzer\<close>

record section_entry =
  section_title :: string
  summary :: string

record paper_record =
  paper_id :: int
  title :: string
  authors :: "string list"
  abstract :: string
  year :: int
  executive_summary :: string
  key_findings :: "string list"
  methodology :: string
  sections :: "section_entry list"
  paper_keywords :: "string list"
  category :: string
  status :: string

definition executive_summary_prompt :: "string \<Rightarrow> string \<Rightarrow> string" where
  "executive_summary_prompt ttl text =
     ''Provide a brief executive summary (100-150 words) of this research paper:'' @ [nl] @
     ''Title: '' @ ttl @ [nl] @
     ''Content: '' @ take 1000 text @ [nl] @
     ''Summary:''"

definition key_findings_prompt :: "string \<Rightarrow> string \<Rightarrow> string" where
  "key_findings_prompt ttl text =
     ''List 3-5 key findings from this research paper in bullet points:'' @ [nl] @
     ''Title: '' @ ttl @ [nl] @
     ''Content: '' @ take 1000 text @ [nl] @
     ''Key Findings:''"

definition methodology_prompt :: "string \<Rightarrow> string \<Rightarrow> string" where
  "methodology_prompt ttl text =
     ''Describe the research methodology used in this paper (50-100 words):'' @ [nl] @
     ''Title: '' @ ttl @ [nl] @
     ''Content: '' @ take 1000 text @ [nl] @
     ''Methodology:''"

text \<open>\<open>response.strip() if response else "N/A"\<close>\<close>

definition clean_response :: "string \<Rightarrow> string" where
  "clean_response response = (if response \<noteq> [] then strip response else ''N/A'')"

text \<open>\<open>[f.strip() for f in s.split('\n') if f.strip()]\<close>\<close>

definition stripped_lines :: "string \<Rightarrow> string list" where
  "stripped_lines s = map strip (filter (\<lambda>f. strip f \<noteq> []) (split_nl s))"

text \<open>
  \<open>analyze_paper\<close> reads the session's list of papers for the new id, and makes its three
  calls of the client in the order of the \<open>prompts\<close> dictionary.
\<close>

definition analyze_paper ::
  "string \<Rightarrow> string \<Rightarrow> paper_record list \<Rightarrow> world \<Rightarrow> paper_record \<times> world" where
  "analyze_paper ttl text stored w =
     (let (r1, w1) = cached_query_huggingface (executive_summary_prompt ttl text) (Some 300) w;
          (r2, w2) = cached_query_huggingface (key_findings_prompt ttl text) (Some 300) w1;
          (r3, w3) = cached_query_huggingface (methodology_prompt ttl text) (Some 300) w2;
          results_executive_summary = clean_response r1;
          results_key_findings = clean_response r2;
          results_methodology = clean_response r3
      in (\<lparr>paper_id = int (length stored) + 1,
           title = ttl,
           authors = [''AI Extracted''],
           abstract = (if text \<noteq> [] then take 300 text else ''No content''),
           year = 2024,
           executive_summary = results_executive_summary,
           key_findings = stripped_lines results_key_findings,
           methodology = results_methodology,
           sections =
             [\<lparr>section_title = ''Abstract'', summary = take 200 text\<rparr>,
              \<lparr>section_title = ''Methodology'', summary = results_methodology\<rparr>,
              \<lparr>section_title = ''Findings'', summary = results_key_findings\<rparr>],
           paper_keywords = [''AI'', ''Research''],
           category = ''Computer Science'',
           status = ''completed''\<rparr>, w3))"

section \<open>The comparison engine\<close>

record agreement =
  agreement_title :: string
  agreement_description :: string
  agreement_papers :: "string list"

record contradiction =
  contradiction_title :: string
  contradiction_description :: string
  conflicting_views :: "string list"

record research_gap =
  gap :: string
  potential_impact :: string

record unique_contribution =
  paper :: string
  contribution :: string

record analysis_record =
  common_themes :: "string list"
  agreements :: "agreement list"
  contradictions :: "contradiction list"
  research_gaps :: "research_gap list"
  unique_contributions :: "unique_contribution list"

record comparison_record =
  papers :: "paper_record list"
  analysis :: analysis_record

text \<open>\<open>"\n".join(lines)\<close>\<close>

fun join_nl :: "string list \<Rightarrow> string" where
  "join_nl [] = []"
| "join_nl [l] = l"
| "join_nl (l # ls) = l @ [nl] @ join_nl ls"

definition papers_text :: "paper_record list \<Rightarrow> string" where
  "papers_text selected_papers =
     join_nl (map (\<lambda>p. title p @ '': '' @ take 200 (executive_summary p)) selected_papers)"

definition agreements_prompt :: "string \<Rightarrow> string" where
  "agreements_prompt ptext =
     ''Find 2-3 areas of agreement between these research papers:'' @ [nl] @
     ptext @ [nl] @
     ''Agreements:''"

definition contradictions_prompt :: "string \<Rightarrow> string" where
  "contradictions_prompt ptext =
     ''Identify any contradictions or differences in these papers:'' @ [nl] @
     ptext @ [nl] @
     ''Contradictions:''"

definition gaps_prompt :: "string \<Rightarrow> string" where
  "gaps_prompt ptext =
     ''What research gaps can be identified from these papers?'' @ [nl] @
     ptext @ [nl] @
     ''Research Gaps:''"

definition compare_papers :: "paper_record list \<Rightarrow> world \<Rightarrow> comparison_record \<times> world" where
  "compare_papers selected_papers w =
     (let ptext = papers_text selected_papers;
          (r1, w1) = cached_query_huggingface (agreements_prompt ptext) (Some 400) w;
          (r2, w2) = cached_query_huggingface (contradictions_prompt ptext) (Some 400) w1;
          (r3, w3) = cached_query_huggingface (gaps_prompt ptext) (Some 400) w2;
          results_agreements = clean_response r1;
          results_contradictions = clean_response r2;
          results_gaps = clean_response r3
      in (\<lparr>papers = selected_papers,
           analysis =
             \<lparr>common_themes = [''AI'', ''Research'', ''Analysis''],
              agreements =
                [\<lparr>agreement_title = ''Common Research Focus'',
                  agreement_description = results_agreements,
                  agreement_papers = map title selected_papers\<rparr>],
              contradictions =
                [\<lparr>contradiction_title = ''Methodological Differences'',
                  contradiction_description = results_contradictions,
                  conflicting_views = stripped_lines results_contradictions\<rparr>],
              research_gaps =
                [\<lparr>gap = results_gaps,
                  potential_impact = ''Addressing these gaps could advance the field''\<rparr>],
              unique_contributions =
                map (\<lambda>p. \<lparr>paper = title p, contribution = take 100 (executive_summary p)\<rparr>)
                    selected_papers\<rparr>\<rparr>, w3))"

section \<open>The session and its pages\<close>

text \<open>
  \<open>name.replace(old, '')\<close>: every occurrence of \<open>old\<close> is removed, leftmost first and
  without overlap; an empty \<open>old\<close> leaves the string as it is.
\<close>

function remove_all :: "string \<Rightarrow> string \<Rightarrow> string" where
  "remove_all old [] = []"
| "remove_all old (c # cs) =
     (if old \<noteq> [] \<and> prefix old (c # cs) then remove_all old (drop (length old) (c # cs))
      else c # remove_all old cs)"
  by pat_completeness auto
termination
  by (relation "measure (\<lambda>(old, s). length s)") (auto simp: neq_Nil_conv)

record uploaded_file =
  file_name :: string
  file_pdf :: pdf_file

datatype page = Library | Upload_Paper | Compare_Papers

text \<open>
  \<open>st.session_state\<close> holds the papers and the last comparison; the sidebar's radio holds
  the page; the cache and the network belong to the process.
\<close>

record app_state =
  current_page :: page
  session_papers :: "paper_record list"
  comparison_result :: "comparison_record option"
  process :: world

definition initial_state :: "(nat \<Rightarrow> http_outcome) \<Rightarrow> app_state" where
  "initial_state net =
     \<lparr>current_page = Library,
      session_papers = [],
      comparison_result = None,
      process = \<lparr>cache = Map.empty, network = net, round_trips = 0\<rparr>\<rparr>"

text \<open>The loop of the Upload page over the uploaded files.\<close>

fun analyze_files ::
  "uploaded_file list \<Rightarrow> paper_record list \<Rightarrow> world \<Rightarrow> paper_record list \<times> world" where
  "analyze_files [] ps w = (ps, w)"
| "analyze_files (file # files) ps w =
     (let pdf_text = extract_pdf_text (file_pdf file);
          (paper_data, w') = analyze_paper (remove_all ''.pdf'' (file_name file)) pdf_text ps w
      in analyze_files files (ps @ [paper_data]) w')"

text \<open>
  What the user can do. \<open>Compare\<close> carries the value of the multiselect when the button is
  pressed: the widget only gives titles out of its options, and at most \<open>max_selections\<close>
  of them.
\<close>

datatype action =
    Navigate page
  | Analyze "uploaded_file list"
  | Compare "string list"
  | New_Comparison

definition multiselect_value :: "string list \<Rightarrow> nat \<Rightarrow> string list \<Rightarrow> bool" where
  "multiselect_value options max_selections selected =
     (list_all (\<lambda>t. t \<in> set options) selected \<and> length selected \<le> max_selections)"

fun step :: "action \<Rightarrow> app_state \<Rightarrow> app_state" where
  "step (Navigate p) s = s\<lparr>current_page := p\<rparr>"
| "step (Analyze uploaded_files) s =
     (if current_page s = Upload_Paper \<and> uploaded_files \<noteq> [] then
        (let (ps, w) = analyze_files uploaded_files (session_papers s) (process s)
         in s\<lparr>session_papers := ps, process := w\<rparr>)
      else s)"
| "step (Compare selected_titles) s =
     (if current_page s = Compare_Papers \<and> 2 \<le> length (session_papers s)
         \<and> multiselect_value (map title (session_papers s)) 5 selected_titles
         \<and> 2 \<le> length selected_titles then
        (let selected = filter (\<lambda>p. title p \<in> set selected_titles) (session_papers s);
             (c, w) = compare_papers selected (process s)
         in s\<lparr>comparison_result := Some c, process := w\<rparr>)
      else s)"
| "step New_Comparison s =
     (if current_page s = Compare_Papers \<and> 2 \<le> length (session_papers s)
         \<and> comparison_result s \<noteq> None then
        s\<lparr>comparison_result := None\<rparr>
      else s)"

text \<open>The state a session reaches by a sequence of actions.\<close>

definition run :: "action list \<Rightarrow> app_state \<Rightarrow> app_state" where
  "run actions s = fold step actions s"

text \<open>A process at its start whose every POST times out.\<close>

definition timed_out :: world where
  "timed_out =
     \<lparr>cache = Map.empty,
      network = (\<lambda>k. Post_Raises (Exception ''Read timed out.'')),
      round_trips = 0\<rparr>"

section \<open>Properties of the inference client\<close>

lemma digits_nonempty: "digits n \<noteq> []"
  by (subst digits.simps) simp

lemma str_int_nonempty: "str_int i \<noteq> []"
  by (simp add: str_int_def digits_nonempty)

lemma query_huggingface_try_nonempty:
  "query_huggingface_try prompt max_length outcome = Inr s \<Longrightarrow> s \<noteq> []"
  by (auto simp: query_huggingface_try_def Let_def
           split: http_outcome.splits sum.splits json.splits list.splits if_splits)

lemma query_huggingface_body_nonempty:
  "query_huggingface prompt max_length outcome \<noteq> []"
proof (cases "query_huggingface_try prompt max_length outcome")
  case (Inl e)
  then show ?thesis by (simp add: query_huggingface_def)
next
  case (Inr s)
  then show ?thesis
    using query_huggingface_try_nonempty [of prompt max_length outcome s]
    by (simp add: query_huggingface_def)
qed

text \<open>The strings in the table came from the function, so they are not empty either.\<close>

lemma cached_query_huggingface_nonempty_table:
  assumes "\<forall>k s. cache w k = Some s \<longrightarrow> s \<noteq> []"
  shows "fst (cached_query_huggingface prompt passed w) \<noteq> [] \<and>
    (\<forall>k s. cache (snd (cached_query_huggingface prompt passed w)) k = Some s \<longrightarrow> s \<noteq> [])"
proof (cases "cache w (prompt, passed)")
  case None
  with assms show ?thesis
    by (auto simp: cached_query_huggingface_def Let_def query_huggingface_body_nonempty
        split: if_splits)
next
  case (Some s)
  with assms show ?thesis by (simp add: cached_query_huggingface_def)
qed

lemma query_all_nonempty_table:
  "\<forall>k s. cache w k = Some s \<longrightarrow> s \<noteq> [] \<Longrightarrow>
   \<forall>k s. cache (query_all qs w) k = Some s \<longrightarrow> s \<noteq> []"
proof (induction qs arbitrary: w)
  case Nil
  then show ?case by simp
next
  case (Cons q qs)
  obtain prompt passed where q: "q = (prompt, passed)" by (cases q)
  from Cons.prems
  have "\<forall>k s. cache (snd (cached_query_huggingface prompt passed w)) k = Some s \<longrightarrow> s \<noteq> []"
    using cached_query_huggingface_nonempty_table by blast
  then have "\<forall>k s. cache (query_all qs (snd (cached_query_huggingface prompt passed w))) k =
      Some s \<longrightarrow> s \<noteq> []"
    by (rule Cons.IH)
  then show ?case by (simp add: q)
qed

text \<open>
  C10. Whatever the prompt and whatever the POST did (a generated text, a body of another
  shape, a status other than 200, an exception), \<open>query_huggingface\<close> returns a string
  that is not empty. The same holds for the memoized function at any moment of a process
  that started with an empty table.
\<close>

theorem query_huggingface_nonempty:
  "query_huggingface prompt max_length outcome \<noteq> [] \<and>
   fst (cached_query_huggingface prompt passed
     (query_all qs \<lparr>cache = Map.empty, network = net, round_trips = 0\<rparr>)) \<noteq> []"
proof -
  have "\<forall>k s. cache \<lparr>cache = Map.empty, network = net, round_trips = 0\<rparr> k = Some s \<longrightarrow> s \<noteq> []"
    by simp
  then have "\<forall>k s. cache (query_all qs \<lparr>cache = Map.empty, network = net, round_trips = 0\<rparr>) k =
      Some s \<longrightarrow> s \<noteq> []"
    by (rule query_all_nonempty_table)
  then have "fst (cached_query_huggingface prompt passed
     (query_all qs \<lparr>cache = Map.empty, network = net, round_trips = 0\<rparr>)) \<noteq> []"
    using cached_query_huggingface_nonempty_table by blast
  then show ?thesis by (simp add: query_huggingface_body_nonempty)
qed

section \<open>Properties of the PDF text extractor\<close>

lemma extract_pages_all_texts:
  "extract_pages (map Inr texts) acc = Inr (acc @ concat texts)"
  by (induction texts arbitrary: acc) simp_all

lemma extract_pages_failure:
  "Inl e \<in> set pages \<Longrightarrow> \<exists>e'. extract_pages pages acc = Inl e'"
  by (induction pages arbitrary: acc) (auto split: sum.splits)

lemma pages_all_texts_or_failure:
  "(\<exists>texts. pages = map Inr texts) \<or> (\<exists>e. Inl e \<in> set pages)"
proof (induction pages)
  case Nil
  then show ?case by simp
next
  case (Cons p ps)
  show ?case
  proof (cases p)
    case (Inl e)
    then show ?thesis by auto
  next
    case (Inr t)
    from Cons show ?thesis
    proof
      assume "\<exists>texts. ps = map Inr texts"
      then obtain texts where "ps = map Inr texts" ..
      with Inr have "p # ps = map Inr (t # texts)" by simp
      then have "\<exists>texts. p # ps = map Inr texts" by (rule exI)
      then show ?thesis by (rule disjI1)
    next
      assume "\<exists>e. Inl e \<in> set ps"
      then show ?thesis by auto
    qed
  qed
qed

text \<open>
  C3. \<open>extract_pdf_text\<close> returns the first 5000 characters of the pages' texts put
  together when the reader and every page give their text, and exactly the string
  \<open>Error extracting PDF text\<close> when the reader or any page raises. There is no third
  outcome, and the result never has more than 5000 characters.
\<close>

theorem extract_pdf_text_result:
  "length (extract_pdf_text pdf_file) \<le> 5000 \<and>
   (extract_pdf_text pdf_file = ''Error extracting PDF text'' \<or>
    (\<exists>texts. pdf_file = Inr (map Inr texts) \<and>
       extract_pdf_text pdf_file = take 5000 (concat texts))) \<and>
   (\<forall>texts. pdf_file = Inr (map Inr texts) \<longrightarrow>
      extract_pdf_text pdf_file = take 5000 (concat texts)) \<and>
   (\<forall>e. pdf_file = Inl e \<longrightarrow> extract_pdf_text pdf_file = ''Error extracting PDF text'') \<and>
   (\<forall>pages e. pdf_file = Inr pages \<and> Inl e \<in> set pages \<longrightarrow>
      extract_pdf_text pdf_file = ''Error extracting PDF text'')"
proof (intro conjI allI impI)
  show "length (extract_pdf_text pdf_file) \<le> 5000"
    by (simp add: extract_pdf_text_def extract_pdf_text_try_def split: sum.splits)
next
  show "extract_pdf_text pdf_file = ''Error extracting PDF text'' \<or>
    (\<exists>texts. pdf_file = Inr (map Inr texts) \<and>
       extract_pdf_text pdf_file = take 5000 (concat texts))"
  proof (cases pdf_file)
    case (Inl e)
    then show ?thesis by (simp add: extract_pdf_text_def extract_pdf_text_try_def)
  next
    case (Inr pages)
    from pages_all_texts_or_failure [of pages] show ?thesis
    proof
      assume "\<exists>texts. pages = map Inr texts"
      then obtain texts where "pages = map Inr texts" ..
      with Inr show ?thesis
        by (simp add: extract_pdf_text_def extract_pdf_text_try_def extract_pages_all_texts)
    next
      assume "\<exists>e. Inl e \<in> set pages"
      then obtain e e' where "extract_pages pages [] = Inl e'"
        using extract_pages_failure by blast
      with Inr show ?thesis
        by (simp add: extract_pdf_text_def extract_pdf_text_try_def)
    qed
  qed
next
  fix texts
  assume "pdf_file = Inr (map Inr texts)"
  then show "extract_pdf_text pdf_file = take 5000 (concat texts)"
    by (simp add: extract_pdf_text_def extract_pdf_text_try_def extract_pages_all_texts)
next
  fix e
  assume "pdf_file = Inl e"
  then show "extract_pdf_text pdf_file = ''Error extracting PDF text''"
    by (simp add: extract_pdf_text_def extract_pdf_text_try_def)
next
  fix pages e
  assume a: "pdf_file = Inr pages \<and> Inl e \<in> set pages"
  then obtain e' where "extract_pages pages [] = Inl e'"
    using extract_pages_failure by blast
  with a show "extract_pdf_text pdf_file = ''Error extracting PDF text''"
    by (simp add: extract_pdf_text_def extract_pdf_text_try_def)
qed

text \<open>A two-page file, a file the reader rejects, and a file whose second page fails.\<close>

theorem extract_pdf_text_result_witness:
  "extract_pdf_text (Inr [Inr ''Deep '', Inr ''learning'']) = ''Deep learning'' \<and>
   extract_pdf_text (Inl (Exception ''EOF marker not found'')) = ''Error extracting PDF text'' \<and>
   extract_pdf_text (Inr [Inr ''Deep '', Inl (Exception ''bad stream'')]) = ''Error extracting PDF text''"
proof -
  have "extract_pdf_text (Inr (map Inr [''Deep '', ''learning''])) = take 5000 (concat [''Deep '', ''learning''])"
    using extract_pdf_text_result [of "Inr (map Inr [''Deep '', ''learning''])"] by blast
  moreover have "extract_pdf_text (Inl (Exception ''EOF marker not found'')) = ''Error extracting PDF text''"
    using extract_pdf_text_result [of "Inl (Exception ''EOF marker not found'')"] by blast
  moreover have "extract_pdf_text (Inr [Inr ''Deep '', Inl (Exception ''bad stream'')]) = ''Error extracting PDF text''"
    using extract_pdf_text_result [of "Inr [Inr ''Deep '', Inl (Exception ''bad stream'')]"] by simp
  ultimately show ?thesis by simp
qed

section \<open>Properties of the inference client: errors, echo and shapes\<close>

lemma contains_prefix: "prefix sub s \<Longrightarrow> contains s sub"
  by (cases s) simp_all

lemma contains_append_left: "contains s sub \<Longrightarrow> contains (pre @ s) sub"
  by (induction pre) simp_all

lemma contains_middle: "contains (pre @ sub @ post) sub"
  by (rule contains_append_left) (simp add: contains_prefix)

lemma contains_suffix: "contains (pre @ sub) sub"
  using contains_middle [of pre sub "[]"] by simp

lemma api_error_contains_Error: "contains (''API Error: '' @ s) ''Error''"
  using contains_middle [of "''API ''" "''Error''" "'': '' @ s"] by simp

lemma error_querying_contains_Error: "contains (''Error querying API: '' @ s) ''Error''"
  by (rule contains_prefix) simp

lemma str_int_404: "str_int 404 = ''404''"
  by (simp add: str_int_def digits.simps digit_char_def)

lemma str_int_minus_7: "str_int (- 7) = ''-7''"
  by (simp add: str_int_def digits.simps digit_char_def)

text \<open>
  C5. A status other than 200 gives \<open>API Error: \<close> followed by the decimal status code. An
  exception of the POST (connection, timeout) and an exception of \<open>response.json()\<close> (the
  body does not parse) give \<open>Error querying API: \<close> followed by the exception's message.
  Each of these strings holds the code or the message, and the word \<open>Error\<close>; the function
  returns a string in every case, so no exception reaches the caller.
\<close>

theorem query_huggingface_error_strings:
  "(status_code \<noteq> 200 \<longrightarrow>
      query_huggingface prompt max_length (Response status_code body) =
        ''API Error: '' @ str_int status_code \<and>
      contains (query_huggingface prompt max_length (Response status_code body))
        (str_int status_code) \<and>
      contains (query_huggingface prompt max_length (Response status_code body)) ''Error'') \<and>
   query_huggingface prompt max_length (Post_Raises e) = ''Error querying API: '' @ str_exn e \<and>
   contains (query_huggingface prompt max_length (Post_Raises e)) (str_exn e) \<and>
   contains (query_huggingface prompt max_length (Post_Raises e)) ''Error'' \<and>
   query_huggingface prompt max_length (Response 200 (Inl e)) =
     ''Error querying API: '' @ str_exn e \<and>
   contains (query_huggingface prompt max_length (Response 200 (Inl e))) (str_exn e) \<and>
   contains (query_huggingface prompt max_length (Response 200 (Inl e))) ''Error''"
proof -
  have a: "query_huggingface prompt max_length (Response status_code body) =
        ''API Error: '' @ str_int status_code" if "status_code \<noteq> 200"
    using that by (simp add: query_huggingface_def query_huggingface_try_def)
  have b: "query_huggingface prompt max_length (Post_Raises e) =
        ''Error querying API: '' @ str_exn e"
    by (simp add: query_huggingface_def query_huggingface_try_def)
  have c: "query_huggingface prompt max_length (Response 200 (Inl e)) =
        ''Error querying API: '' @ str_exn e"
    by (simp add: query_huggingface_def query_huggingface_try_def)
  show ?thesis
    using a contains_suffix [of "''API Error: ''" "str_int status_code"]
      api_error_contains_Error [of "str_int status_code"]
      contains_suffix [of "''Error querying API: ''" "str_exn e"]
      error_querying_contains_Error [of "str_exn e"]
    by (simp only: b c) simp
qed

text \<open>A 404 without a body, and a POST that times out.\<close>

theorem query_huggingface_error_strings_witness:
  "query_huggingface ''Summary:'' 300 (Response 404 (Inl (Exception ''no body''))) =
     ''API Error: 404'' \<and>
   query_huggingface ''Summary:'' 300 (Post_Raises (Exception ''Read timed out.'')) =
     ''Error querying API: Read timed out.''"
  using query_huggingface_error_strings
    [of 404 "''Summary:''" 300 "Inl (Exception ''no body'')" "Exception ''Read timed out.''"]
  by (simp add: str_int_404)

text \<open>
  C4, as stated, fails. The prompt is removed once: when the model repeats the prompt, what
  is returned begins with the prompt again. A first element that is an object without
  \<open>generated_text\<close> gives \<open>No response generated\<close>, and a first element that is not an
  object does not give \<open>Invalid response format\<close>.
\<close>

theorem query_huggingface_echo_counterexample:
  "startswith ''HiHi there'' ''Hi'' \<and>
   query_huggingface ''Hi'' 512
     (Response 200 (Inr (JArr [JObj [(''generated_text'', JStr ''HiHi there'')]]))) =
     ''Hi there'' \<and>
   startswith ''Hi there'' ''Hi'' \<and>
   query_huggingface ''Hi'' 512 (Response 200 (Inr (JArr [JObj []]))) =
     ''No response generated'' \<and>
   query_huggingface ''Hi'' 512 (Response 200 (Inr (JArr [JStr ''Hi there'']))) \<noteq>
     ''Invalid response format''"
  by (simp add: query_huggingface_def query_huggingface_try_def get_generated_text_def
      strip_value_def startswith_def strip_def lstrip_def rstrip_def isspace_def
      attribute_error_def quoted_def)

text \<open>
  C4, amended. On a 200 whose body is an array that starts with an object carrying a string
  \<open>generated_text\<close>: the text is stripped of surrounding whitespace; if it then begins with
  the prompt, one leading copy of the prompt is cut off and the rest is stripped again;
  otherwise it is kept; an empty outcome becomes \<open>No response generated\<close>. An object
  without \<open>generated_text\<close> gives \<open>No response generated\<close> too. A body that is not a
  non-empty array gives \<open>Invalid response format\<close>. A first element that is not an object,
  or a \<open>generated_text\<close> that is not a string, raises inside the \<open>try\<close> and gives the
  \<open>Error querying API: \<close> string.
\<close>

theorem query_huggingface_on_200:
  "(map_of kvs ''generated_text'' = Some (JStr raw) \<and> strip raw = prompt @ rest \<longrightarrow>
      query_huggingface prompt max_length (Response 200 (Inr (JArr (JObj kvs # elems)))) =
        (if strip rest = [] then ''No response generated'' else strip rest)) \<and>
   (map_of kvs ''generated_text'' = Some (JStr raw) \<and> \<not> startswith (strip raw) prompt \<longrightarrow>
      query_huggingface prompt max_length (Response 200 (Inr (JArr (JObj kvs # elems)))) =
        (if strip raw = [] then ''No response generated'' else strip raw)) \<and>
   (map_of kvs ''generated_text'' = None \<longrightarrow>
      query_huggingface prompt max_length (Response 200 (Inr (JArr (JObj kvs # elems)))) =
        ''No response generated'') \<and>
   ((\<forall>first others. result \<noteq> JArr (first # others)) \<longrightarrow>
      query_huggingface prompt max_length (Response 200 (Inr result)) =
        ''Invalid response format'') \<and>
   ((\<forall>fields. first \<noteq> JObj fields) \<longrightarrow>
      query_huggingface prompt max_length (Response 200 (Inr (JArr (first # elems)))) =
        ''Error querying API: '' @ str_exn (attribute_error first ''get'')) \<and>
   (map_of kvs ''generated_text'' = Some g \<and> (\<forall>s. g \<noteq> JStr s) \<longrightarrow>
      query_huggingface prompt max_length (Response 200 (Inr (JArr (JObj kvs # elems)))) =
        ''Error querying API: '' @ str_exn (attribute_error g ''strip''))"
proof (intro conjI impI)
  assume "map_of kvs ''generated_text'' = Some (JStr raw) \<and> strip raw = prompt @ rest"
  then show "query_huggingface prompt max_length (Response 200 (Inr (JArr (JObj kvs # elems)))) =
        (if strip rest = [] then ''No response generated'' else strip rest)"
    by (simp add: query_huggingface_def query_huggingface_try_def get_generated_text_def
        strip_value_def startswith_def)
next
  assume "map_of kvs ''generated_text'' = Some (JStr raw) \<and> \<not> startswith (strip raw) prompt"
  then show "query_huggingface prompt max_length (Response 200 (Inr (JArr (JObj kvs # elems)))) =
        (if strip raw = [] then ''No response generated'' else strip raw)"
    by (simp add: query_huggingface_def query_huggingface_try_def get_generated_text_def
        strip_value_def)
next
  assume "map_of kvs ''generated_text'' = None"
  then show "query_huggingface prompt max_length (Response 200 (Inr (JArr (JObj kvs # elems)))) =
        ''No response generated''"
    by (simp add: query_huggingface_def query_huggingface_try_def get_generated_text_def
        strip_value_def startswith_def strip_def lstrip_def rstrip_def)
next
  assume "\<forall>first others. result \<noteq> JArr (first # others)"
  then show "query_huggingface prompt max_length (Response 200 (Inr result)) =
        ''Invalid response format''"
    by (simp add: query_huggingface_def query_huggingface_try_def
        split: json.splits list.splits)
next
  assume "\<forall>fields. first \<noteq> JObj fields"
  then show "query_huggingface prompt max_length (Response 200 (Inr (JArr (first # elems)))) =
        ''Error querying API: '' @ str_exn (attribute_error first ''get'')"
    by (cases first)
      (simp_all add: query_huggingface_def query_huggingface_try_def get_generated_text_def)
next
  assume "map_of kvs ''generated_text'' = Some g \<and> (\<forall>s. g \<noteq> JStr s)"
  then show "query_huggingface prompt max_length (Response 200 (Inr (JArr (JObj kvs # elems)))) =
        ''Error querying API: '' @ str_exn (attribute_error g ''strip'')"
    by (cases g)
      (simp_all add: query_huggingface_def query_huggingface_try_def get_generated_text_def
        strip_value_def)
qed

text \<open>
  An echoed prompt followed by an answer; an answer without the echo; an empty array; a
  \<open>generated_text\<close> that is \<open>null\<close>.
\<close>

theorem query_huggingface_on_200_witness:
  "query_huggingface ''Summary:'' 300
     (Response 200 (Inr (JArr [JObj [(''generated_text'', JStr ''Summary: It works. '')]]))) =
     ''It works.'' \<and>
   query_huggingface ''Summary:'' 300
     (Response 200 (Inr (JArr [JObj [(''generated_text'', JStr '' It works.'')]]))) =
     ''It works.'' \<and>
   query_huggingface ''Summary:'' 300 (Response 200 (Inr (JArr []))) =
     ''Invalid response format'' \<and>
   query_huggingface ''Summary:'' 300
     (Response 200 (Inr (JArr [JObj [(''generated_text'', JNull)]]))) =
     ''Error querying API: '' @ quoted ''NoneType'' @ '' object has no attribute '' @
       quoted ''strip''"
proof -
  have s1: "strip ''Summary: It works. '' = ''Summary:'' @ '' It works.''"
    and s2: "strip '' It works.'' = ''It works.''"
    by (simp_all add: strip_def lstrip_def rstrip_def isspace_def)
  have "query_huggingface ''Summary:'' 300
     (Response 200 (Inr (JArr [JObj [(''generated_text'', JStr ''Summary: It works. '')]]))) =
     ''It works.''"
    using query_huggingface_on_200 [of "[(''generated_text'', JStr ''Summary: It works. '')]"
        "''Summary: It works. ''" "''Summary:''" "'' It works.''" 300 "[]"] s1 s2
    by simp
  moreover have "query_huggingface ''Summary:'' 300
     (Response 200 (Inr (JArr [JObj [(''generated_text'', JStr '' It works.'')]]))) =
     ''It works.''"
    using query_huggingface_on_200 [of "[(''generated_text'', JStr '' It works.'')]"
        "'' It works.''" "''Summary:''" _ 300 "[]"] s2
    by (simp add: startswith_def)
  moreover have "query_huggingface ''Summary:'' 300 (Response 200 (Inr (JArr []))) =
     ''Invalid response format''"
    using query_huggingface_on_200 [of _ _ "''Summary:''" _ 300 _ "JArr []"]
    by simp
  moreover have "query_huggingface ''Summary:'' 300
     (Response 200 (Inr (JArr [JObj [(''generated_text'', JNull)]]))) =
     ''Error querying API: '' @ quoted ''NoneType'' @ '' object has no attribute '' @
       quoted ''strip''"
    using query_huggingface_on_200 [of "[(''generated_text'', JNull)]" _ "''Summary:''" _ 300
        "[]" _ _ JNull]
    by (simp add: attribute_error_def)
  ultimately show ?thesis by simp
qed

section \<open>Properties of the cache\<close>







lemma round_trips_miss:
  "cache w (prompt, passed) = None \<Longrightarrow>
   round_trips (snd (cached_query_huggingface prompt passed w)) = Suc (round_trips w)"
  by (simp add: cached_query_huggingface_def Let_def)

text \<open>
  The table is keyed on the arguments as passed: a call without \<open>max_length\<close> and a call
  that passes 512 are two entries, and each of them makes its own POST.
\<close>

lemma omitted_max_length_own_entry:
  assumes "cache w (prompt, None) = None" and "cache w (prompt, Some 512) = None"
  shows "round_trips (snd (cached_query_huggingface prompt (Some 512)
      (snd (cached_query_huggingface prompt None w)))) = Suc (Suc (round_trips w))"
    and "fst (cached_query_huggingface prompt (Some 512)
      (snd (cached_query_huggingface prompt None w))) =
      query_huggingface prompt 512 (network w (Suc (round_trips w)))"
  using assms by (simp_all add: cached_query_huggingface_def Let_def max_length_of_def)



section \<open>Properties of the paper analyzer\<close>

lemma analyze_paper_abstract:
  "abstract (fst (analyze_paper ttl text stored w)) =
   (if text \<noteq> [] then take 300 text else ''No content'')"
  by (simp add: analyze_paper_def Let_def split: prod.splits)

lemma analyze_paper_status:
  "status (fst (analyze_paper ttl text stored w)) = ''completed''"
  by (simp add: analyze_paper_def Let_def split: prod.splits)

lemma analyze_paper_id:
  "paper_id (fst (analyze_paper ttl text stored w)) = int (length stored) + 1"
  by (simp add: analyze_paper_def Let_def split: prod.splits)

lemma analyze_paper_title:
  "title (fst (analyze_paper ttl text stored w)) = ttl"
  by (simp add: analyze_paper_def Let_def split: prod.splits)

lemma analyze_paper_executive_summary:
  "executive_summary (fst (analyze_paper ttl text stored w)) =
   clean_response (fst (cached_query_huggingface (executive_summary_prompt ttl text) (Some 300) w))"
  by (simp add: analyze_paper_def Let_def split: prod.splits)

text \<open>
  C1, as stated, fails for the empty text: the guard \<open>text[:300] if text else "No content"\<close>
  makes the abstract \<open>No content\<close>, not the empty string. A PDF without pages is such
  an upload: its extracted text is empty.
\<close>

theorem analyze_paper_abstract_counterexample:
  "extract_pdf_text (Inr []) = [] \<and>
   abstract (fst (analyze_paper ''scan'' (extract_pdf_text (Inr [])) [] timed_out)) =
     ''No content'' \<and>
   abstract (fst (analyze_paper ''scan'' (extract_pdf_text (Inr [])) [] timed_out)) \<noteq>
     take 300 (extract_pdf_text (Inr []))"
  by (simp add: analyze_paper_abstract extract_pdf_text_def extract_pdf_text_try_def)

text \<open>
  C1, amended. The abstract is the first 300 characters of the text when the text is not
  empty, and the string \<open>No content\<close> when it is.
\<close>

theorem analyze_paper_abstract_guarded:
  "(text \<noteq> [] \<longrightarrow> abstract (fst (analyze_paper ttl text stored w)) = take 300 text) \<and>
   (text = [] \<longrightarrow> abstract (fst (analyze_paper ttl text stored w)) = ''No content'')"
  by (simp add: analyze_paper_abstract)

theorem analyze_paper_abstract_guarded_witness:
  "abstract (fst (analyze_paper ''paper'' ''We study X.'' [] timed_out)) = ''We study X.'' \<and>
   abstract (fst (analyze_paper ''scan'' [] [] timed_out)) = ''No content''"
  using analyze_paper_abstract_guarded [of "''We study X.''" "''paper''" "[]" timed_out]
    analyze_paper_abstract_guarded [of "[]" "''scan''" "[]" timed_out]
  by simp

text \<open>
  C2. Whatever the title, the text, the cache and the network do, the record
  \<open>analyze_paper\<close> returns has the status \<open>completed\<close>. The function has no failing
  branch: each call of the client returns a string. When the POST for the summary raises,
  the error string is what the record holds as its executive summary.
\<close>

theorem analyze_paper_completed:
  "status (fst (analyze_paper ttl text stored w)) = ''completed'' \<and>
   (cache w (executive_summary_prompt ttl text, Some 300) = None \<and>
    network w (round_trips w) = Post_Raises e \<longrightarrow>
      executive_summary (fst (analyze_paper ttl text stored w)) =
        strip (''Error querying API: '' @ str_exn e))"
proof (intro conjI impI)
  show "status (fst (analyze_paper ttl text stored w)) = ''completed''"
    by (rule analyze_paper_status)
next
  assume "cache w (executive_summary_prompt ttl text, Some 300) = None \<and>
    network w (round_trips w) = Post_Raises e"
  then have "fst (cached_query_huggingface (executive_summary_prompt ttl text) (Some 300) w) =
      ''Error querying API: '' @ str_exn e"
    by (simp add: cached_query_huggingface_def Let_def query_huggingface_def
        query_huggingface_try_def)
  then show "executive_summary (fst (analyze_paper ttl text stored w)) =
        strip (''Error querying API: '' @ str_exn e)"
    by (simp add: analyze_paper_executive_summary clean_response_def)
qed

text \<open>
  Every POST times out: the error string is stored as the executive summary and the status
  is \<open>completed\<close>.
\<close>

theorem analyze_paper_completed_witness:
  "status (fst (analyze_paper ''paper'' ''We study X.'' [] timed_out)) = ''completed'' \<and>
   executive_summary (fst (analyze_paper ''paper'' ''We study X.'' [] timed_out)) =
     ''Error querying API: Read timed out.''"
proof -
  have "strip ''Error querying API: Read timed out.'' = ''Error querying API: Read timed out.''"
    by (simp add: strip_def lstrip_def rstrip_def isspace_def)
  then show ?thesis
    using analyze_paper_completed
      [of "''paper''" "''We study X.''" "[]" timed_out "Exception ''Read timed out.''"]
    by (simp add: timed_out_def)
qed

section \<open>Properties of the comparison engine\<close>

lemma compare_papers_papers: "papers (fst (compare_papers selected_papers w)) = selected_papers"
  by (simp add: compare_papers_def Let_def split: prod.splits)

lemma compare_papers_unique_contributions:
  "unique_contributions (analysis (fst (compare_papers selected_papers w))) =
   map (\<lambda>p. \<lparr>paper = title p, contribution = take 100 (executive_summary p)\<rparr>) selected_papers"
  by (simp add: compare_papers_def Let_def split: prod.splits)

text \<open>
  C6. The record \<open>compare_papers\<close> returns holds the papers it was given, in their order.
  Its \<open>unique_contributions\<close> has one entry for each of them, in the same order: the
  paper's title with the first 100 characters of that paper's executive summary. The entries
  are the same whatever the cache and the network are: no call of the client goes into them.
\<close>

theorem compare_papers_unique_contributions_local:
  "papers (fst (compare_papers selected_papers w)) = selected_papers \<and>
   length (unique_contributions (analysis (fst (compare_papers selected_papers w)))) =
     length selected_papers \<and>
   (\<forall>i < length selected_papers.
      paper (unique_contributions (analysis (fst (compare_papers selected_papers w))) ! i) =
        title (selected_papers ! i) \<and>
      contribution (unique_contributions (analysis (fst (compare_papers selected_papers w))) ! i) =
        take 100 (executive_summary (selected_papers ! i))) \<and>
   unique_contributions (analysis (fst (compare_papers selected_papers w))) =
     unique_contributions (analysis (fst (compare_papers selected_papers w')))"
  by (simp add: compare_papers_papers compare_papers_unique_contributions)

text \<open>Two papers titled \<open>A\<close> and \<open>B\<close>, compared while every POST times out.\<close>

theorem compare_papers_unique_contributions_local_witness:
  "(let a = fst (analyze_paper ''A'' ''We study X.'' [] timed_out);
        b = fst (analyze_paper ''B'' ''We study Y.'' [a] timed_out);
        c = fst (compare_papers [a, b] timed_out)
    in papers c = [a, b] \<and>
       map paper (unique_contributions (analysis c)) = [''A'', ''B''] \<and>
       length (unique_contributions (analysis c)) = 2)"
proof -
  let ?a = "fst (analyze_paper ''A'' ''We study X.'' [] timed_out)"
  let ?b = "fst (analyze_paper ''B'' ''We study Y.'' [?a] timed_out)"
  let ?uc = "unique_contributions (analysis (fst (compare_papers [?a, ?b] timed_out)))"
  have all: "papers (fst (compare_papers [?a, ?b] timed_out)) = [?a, ?b] \<and> length ?uc = 2 \<and>
      (\<forall>i < 2. paper (?uc ! i) = title ([?a, ?b] ! i))"
    using compare_papers_unique_contributions_local [of "[?a, ?b]" timed_out timed_out]
    by simp
  then have "length ?uc = Suc (Suc 0)" by simp
  then obtain x y where uc: "?uc = [x, y]"
    by (auto simp: length_Suc_conv)
  from all have "paper (?uc ! 0) = title ?a" and "paper (?uc ! 1) = title ?b"
    by simp_all
  with uc have "map paper ?uc = [''A'', ''B'']"
    by (simp add: analyze_paper_title)
  with all show ?thesis by (simp add: Let_def)
qed

section \<open>Properties of the session\<close>

lemma upt_ids_snoc:
  "map paper_id ps = map int [1..<Suc (length ps)] \<Longrightarrow>
   paper_id p = int (length ps) + 1 \<Longrightarrow>
   map paper_id (ps @ [p]) = map int [1..<Suc (length (ps @ [p]))]"
  by simp

lemma analyze_files_ids:
  "map paper_id ps = map int [1..<Suc (length ps)] \<Longrightarrow>
   map paper_id (fst (analyze_files files ps w)) =
     map int [1..<Suc (length (fst (analyze_files files ps w)))]"
proof (induction files arbitrary: ps w)
  case Nil
  then show ?case by simp
next
  case (Cons f fs)
  let ?text = "extract_pdf_text (file_pdf f)"
  let ?r = "analyze_paper (remove_all ''.pdf'' (file_name f)) ?text ps w"
  have "map paper_id (ps @ [fst ?r]) = map int [1..<Suc (length (ps @ [fst ?r]))]"
    using Cons.prems by (intro upt_ids_snoc) (simp_all add: analyze_paper_id del: upt_Suc)
  then have "map paper_id (fst (analyze_files fs (ps @ [fst ?r]) (snd ?r))) =
     map int [1..<Suc (length (fst (analyze_files fs (ps @ [fst ?r]) (snd ?r))))]"
    by (rule Cons.IH)
  then show ?case by (simp add: Let_def case_prod_beta del: upt_Suc)
qed

lemma analyze_files_prefix: "prefix ps (fst (analyze_files files ps w))"
proof (induction files arbitrary: ps w)
  case Nil
  then show ?case by simp
next
  case (Cons f fs)
  let ?r = "analyze_paper (remove_all ''.pdf'' (file_name f))
      (extract_pdf_text (file_pdf f)) ps w"
  have "prefix (ps @ [fst ?r]) (fst (analyze_files fs (ps @ [fst ?r]) (snd ?r)))"
    by (rule Cons.IH)
  then have "prefix ps (fst (analyze_files fs (ps @ [fst ?r]) (snd ?r)))"
    by (rule append_prefixD)
  then show ?case by (simp add: Let_def case_prod_beta)
qed

lemma analyze_files_length:
  "length (fst (analyze_files files ps w)) = length ps + length files"
  by (induction files arbitrary: ps w) (simp_all add: Let_def case_prod_beta)

lemma step_ids:
  "map paper_id (session_papers s) = map int [1..<Suc (length (session_papers s))] \<Longrightarrow>
   map paper_id (session_papers (step a s)) =
     map int [1..<Suc (length (session_papers (step a s)))]"
proof (cases a)
  case (Analyze uploaded_files)
  assume "map paper_id (session_papers s) = map int [1..<Suc (length (session_papers s))]"
  then have "map paper_id (fst (analyze_files uploaded_files (session_papers s) (process s))) =
     map int [1..<Suc (length (fst (analyze_files uploaded_files (session_papers s) (process s))))]"
    by (rule analyze_files_ids)
  with Analyze \<open>map paper_id (session_papers s) = map int [1..<Suc (length (session_papers s))]\<close>
  show ?thesis by (simp add: case_prod_beta del: upt_Suc)
qed (simp_all add: Let_def case_prod_beta del: upt_Suc)

lemma step_prefix: "prefix (session_papers s) (session_papers (step a s))"
proof (cases a)
  case (Analyze uploaded_files)
  have "prefix (session_papers s)
     (fst (analyze_files uploaded_files (session_papers s) (process s)))"
    by (rule analyze_files_prefix)
  with Analyze show ?thesis by (simp add: case_prod_beta)
qed (simp_all add: Let_def case_prod_beta)

lemma run_ids:
  "map paper_id (session_papers s) = map int [1..<Suc (length (session_papers s))] \<Longrightarrow>
   map paper_id (session_papers (run actions s)) =
     map int [1..<Suc (length (session_papers (run actions s)))]"
  unfolding run_def
  by (induction actions arbitrary: s) (simp_all add: step_ids del: upt_Suc step.simps)

lemma run_prefix: "prefix (session_papers s) (session_papers (run actions s))"
  unfolding run_def
proof (induction actions arbitrary: s)
  case Nil
  then show ?case by simp
next
  case (Cons a actions)
  have "prefix (session_papers s) (session_papers (step a s))"
    by (rule step_prefix)
  moreover have "prefix (session_papers (step a s)) (session_papers (fold step actions (step a s)))"
    by (rule Cons.IH)
  ultimately show ?case by (auto intro: prefix_order.trans)
qed

lemma analyze_files_titles:
  "map title (fst (analyze_files files ps w)) =
   map title ps @ map (\<lambda>f. remove_all ''.pdf'' (file_name f)) files"
  by (induction files arbitrary: ps w)
    (simp_all add: Let_def case_prod_beta analyze_paper_title)

lemma step_Analyze_titles:
  "current_page s = Upload_Paper \<Longrightarrow>
   map title (session_papers (step (Analyze files) s)) =
     map title (session_papers s) @ map (\<lambda>f. remove_all ''.pdf'' (file_name f)) files"
  by (cases files) (simp_all add: case_prod_beta analyze_files_titles del: analyze_files.simps)

lemma step_Analyze_page: "current_page (step (Analyze files) s) = current_page s"
  by (simp add: case_prod_beta)

lemma step_Analyze_length:
  "current_page s = Upload_Paper \<Longrightarrow>
   length (session_papers (step (Analyze files) s)) = length (session_papers s) + length files"
  by (cases files) (simp_all add: case_prod_beta analyze_files_length del: analyze_files.simps)

lemma run_append: "run (actions @ later) s = run later (run actions s)"
  by (simp add: run_def)

lemma strictly_increasing_upt: "sorted_wrt (<) (map int [m..<n])"
  by (simp add: sorted_wrt_map sorted_wrt_upt)

lemma distinct_ids_upt: "distinct (map int [m..<n])"
  by (simp add: distinct_map)

text \<open>
  C8. In every state a session reaches from its start, the ids of the stored papers are
  1, 2, ..., n in this order: strictly increasing and without duplicates. The papers stored
  at one moment stay, unchanged and in place, as the first papers of every later state, so
  each new record comes after them with the next id.
\<close>

theorem paper_ids_strictly_increasing:
  "map paper_id (session_papers (run actions (initial_state net))) =
     map int [1..<Suc (length (session_papers (run actions (initial_state net))))] \<and>
   sorted_wrt (<) (map paper_id (session_papers (run actions (initial_state net)))) \<and>
   distinct (map paper_id (session_papers (run actions (initial_state net)))) \<and>
   prefix (session_papers (run actions (initial_state net)))
     (session_papers (run (actions @ later) (initial_state net)))"
proof -
  have ids: "map paper_id (session_papers (run actions (initial_state net))) =
     map int [1..<Suc (length (session_papers (run actions (initial_state net))))]"
    by (rule run_ids) (simp add: initial_state_def)
  have "prefix (session_papers (run actions (initial_state net)))
     (session_papers (run (actions @ later) (initial_state net)))"
    unfolding run_append by (rule run_prefix)
  moreover have "sorted_wrt (<) (map paper_id (session_papers (run actions (initial_state net))))"
    unfolding ids by (rule strictly_increasing_upt)
  moreover have "distinct (map paper_id (session_papers (run actions (initial_state net))))"
    unfolding ids by (rule distinct_ids_upt)
  ultimately show ?thesis using ids by simp
qed

text \<open>Two files analyzed by one press of the button, and a third by another.\<close>

theorem paper_ids_strictly_increasing_witness:
  "(let a = \<lparr>file_name = ''A.pdf'', file_pdf = Inr [Inr ''We study X.'']\<rparr>;
        b = \<lparr>file_name = ''B.pdf'', file_pdf = Inl (Exception ''EOF marker not found'')\<rparr>
    in map paper_id (session_papers
         (run [Navigate Upload_Paper, Analyze [a, b], Analyze [a]] (initial_state (network timed_out)))) =
       [1, 2, 3])"
proof -
  let ?a = "\<lparr>file_name = ''A.pdf'', file_pdf = Inr [Inr ''We study X.'']\<rparr>"
  let ?b = "\<lparr>file_name = ''B.pdf'', file_pdf = Inl (Exception ''EOF marker not found'')\<rparr>"
  let ?s0 = "step (Navigate Upload_Paper) (initial_state (network timed_out))"
  let ?s1 = "step (Analyze [?a, ?b]) ?s0"
  let ?s2 = "step (Analyze [?a]) ?s1"
  note step.simps [simp del]
  have p0: "current_page ?s0 = Upload_Paper" and l0: "length (session_papers ?s0) = 0"
    by (simp_all add: initial_state_def step.simps(1))
  have p1: "current_page ?s1 = Upload_Paper"
    using p0 by (simp only: step_Analyze_page)
  have "length (session_papers ?s2) = 3"
    by (simp only: step_Analyze_length [OF p1] step_Analyze_length [OF p0] l0) simp
  moreover have "run [Navigate Upload_Paper, Analyze [?a, ?b], Analyze [?a]] (initial_state (network timed_out)) = ?s2"
    by (simp only: run_def fold_simps)
  ultimately have "length (session_papers
      (run [Navigate Upload_Paper, Analyze [?a, ?b], Analyze [?a]] (initial_state (network timed_out)))) = 3"
    by simp
  then have "map paper_id (session_papers
      (run [Navigate Upload_Paper, Analyze [?a, ?b], Analyze [?a]] (initial_state (network timed_out)))) =
      map int [1..<Suc 3]"
    using paper_ids_strictly_increasing
      [of "[Navigate Upload_Paper, Analyze [?a, ?b], Analyze [?a]]"
        "network timed_out"]
    by simp
  moreover have "map int [1..<Suc 3] = [1, 2, 3]"
    by (simp add: upt_rec)
  ultimately show ?thesis by (simp only: Let_def)
qed

section \<open>Properties of the Compare page\<close>

lemma filter_all_titles:
  "set (map title ps) \<subseteq> set selected_titles \<Longrightarrow>
   filter (\<lambda>p. title p \<in> set selected_titles) ps = ps"
  by (induction ps) auto

lemma step_Compare_papers:
  "current_page s = Compare_Papers \<Longrightarrow> 2 \<le> length (session_papers s) \<Longrightarrow>
   multiselect_value (map title (session_papers s)) 5 selected_titles \<Longrightarrow>
   2 \<le> length selected_titles \<Longrightarrow>
   map_option papers (comparison_result (step (Compare selected_titles) s)) =
     Some (filter (\<lambda>p. title p \<in> set selected_titles) (session_papers s))"
  by (simp add: Let_def case_prod_beta compare_papers_papers)

text \<open>With fewer than two titles selected, pressing is not possible: nothing changes.\<close>

lemma step_Compare_too_few:
  "length selected_titles < 2 \<Longrightarrow> step (Compare selected_titles) s = s"
  by simp

lemma remove_pdf_A: "remove_all ''.pdf'' ''A.pdf'' = ''A''"
  by simp

lemma remove_pdf_B: "remove_all ''.pdf'' ''B.pdf'' = ''B''"
  by simp

text \<open>
  When the stored papers have distinct titles and the selection has no repetition, the
  comparison is made from as many papers as titles were selected, so from 2 to 5, and
  their titles are distinct.
\<close>

lemma filter_titles_length:
  assumes "distinct (map title ps)" and "distinct selected_titles"
    and "set selected_titles \<subseteq> set (map title ps)"
  shows "length (filter (\<lambda>p. title p \<in> set selected_titles) ps) = length selected_titles"
proof -
  let ?kept = "filter (\<lambda>t. t \<in> set selected_titles) (map title ps)"
  have "map title (filter (\<lambda>p. title p \<in> set selected_titles) ps) = ?kept"
    by (simp add: filter_map comp_def)
  then have "length (filter (\<lambda>p. title p \<in> set selected_titles) ps) = length ?kept"
    by (metis length_map)
  also have "\<dots> = card (set ?kept)"
  proof -
    from assms(1) have "distinct ?kept" by (rule distinct_filter)
    then show ?thesis by (rule distinct_card [symmetric])
  qed
  also have "set ?kept = set selected_titles"
    using assms(3) by auto
  also have "card (set selected_titles) = length selected_titles"
    using assms(2) by (rule distinct_card)
  finally show ?thesis .
qed

lemma step_Compare_distinct_titles:
  assumes "current_page s = Compare_Papers" and "2 \<le> length (session_papers s)"
    and "multiselect_value (map title (session_papers s)) 5 selected_titles"
    and "2 \<le> length selected_titles"
    and "distinct (map title (session_papers s))" and "distinct selected_titles"
  shows "\<exists>c. comparison_result (step (Compare selected_titles) s) = Some c \<and>
    2 \<le> length (papers c) \<and> length (papers c) \<le> 5 \<and>
    distinct (map title (papers c)) \<and> set (papers c) \<subseteq> set (session_papers s)"
proof -
  let ?selected = "filter (\<lambda>p. title p \<in> set selected_titles) (session_papers s)"
  from assms(3) have sub: "set selected_titles \<subseteq> set (map title (session_papers s))"
    and le: "length selected_titles \<le> 5"
    by (auto simp: multiselect_value_def list_all_iff)
  have len: "length ?selected = length selected_titles"
    using assms(5) assms(6) sub by (rule filter_titles_length)
  have "map_option papers (comparison_result (step (Compare selected_titles) s)) = Some ?selected"
    using assms(1-4) by (rule step_Compare_papers)
  then obtain c where c: "comparison_result (step (Compare selected_titles) s) = Some c"
    and p: "papers c = ?selected"
    by auto
  have "distinct (map title ?selected)"
    using assms(5) by (simp add: distinct_map_filter)
  with c p len le assms(4) show ?thesis by auto
qed

text \<open>
  C7 fails on the program. The Compare page picks the papers by
  \<open>p['title'] in selected_titles\<close>, so every stored paper with a selected title goes into
  the comparison. Two files are analyzed by three presses of the button; then the two
  titles are selected and compared: the comparison held in the session was made from six
  papers, whose titles repeat.
\<close>

theorem compare_six_papers:
  "(let a = \<lparr>file_name = ''A.pdf'', file_pdf = Inr [Inr ''We study X.'']\<rparr>;
        b = \<lparr>file_name = ''B.pdf'', file_pdf = Inr [Inr ''We study Y.'']\<rparr>;
        s = run [Navigate Upload_Paper, Analyze [a, b], Analyze [a, b], Analyze [a, b],
                 Navigate Compare_Papers, Compare [''A'', ''B'']]
              (initial_state (network timed_out))
    in map_option (\<lambda>c. map title (papers c)) (comparison_result s) =
         Some [''A'', ''B'', ''A'', ''B'', ''A'', ''B''] \<and>
       map_option (\<lambda>c. length (papers c)) (comparison_result s) = Some 6)"
proof -
  let ?a = "\<lparr>file_name = ''A.pdf'', file_pdf = Inr [Inr ''We study X.'']\<rparr>"
  let ?b = "\<lparr>file_name = ''B.pdf'', file_pdf = Inr [Inr ''We study Y.'']\<rparr>"
  let ?s0 = "step (Navigate Upload_Paper) (initial_state (network timed_out))"
  let ?s1 = "step (Analyze [?a, ?b]) ?s0"
  let ?s2 = "step (Analyze [?a, ?b]) ?s1"
  let ?s3 = "step (Analyze [?a, ?b]) ?s2"
  let ?s4 = "step (Navigate Compare_Papers) ?s3"
  let ?s5 = "step (Compare [''A'', ''B'']) ?s4"
  note step.simps [simp del]
  have p0: "current_page ?s0 = Upload_Paper" and t0: "map title (session_papers ?s0) = []"
    by (simp_all add: initial_state_def step.simps(1))
  have p1: "current_page ?s1 = Upload_Paper"
    using p0 by (simp only: step_Analyze_page)
  have t1: "map title (session_papers ?s1) = [''A'', ''B'']"
    by (simp only: step_Analyze_titles [OF p0] t0) simp
  have p2: "current_page ?s2 = Upload_Paper"
    using p1 by (simp only: step_Analyze_page)
  have t2: "map title (session_papers ?s2) = [''A'', ''B'', ''A'', ''B'']"
    by (simp only: step_Analyze_titles [OF p1] t1) simp
  have t3: "map title (session_papers ?s3) = [''A'', ''B'', ''A'', ''B'', ''A'', ''B'']"
    by (simp only: step_Analyze_titles [OF p2] t2) simp
  have p4: "current_page ?s4 = Compare_Papers"
    and t4: "map title (session_papers ?s4) = [''A'', ''B'', ''A'', ''B'', ''A'', ''B'']"
    using t3 by (simp_all add: step.simps(1))
  have l4: "2 \<le> length (session_papers ?s4)"
    using arg_cong [OF t4, of length] by simp
  have m4: "multiselect_value (map title (session_papers ?s4)) 5 [''A'', ''B'']"
    by (simp only: t4) (simp add: multiselect_value_def)
  have "map_option papers (comparison_result ?s5) =
      Some (filter (\<lambda>p. title p \<in> set [''A'', ''B'']) (session_papers ?s4))"
    using p4 l4 m4 by (rule step_Compare_papers) simp
  moreover have "filter (\<lambda>p. title p \<in> set [''A'', ''B'']) (session_papers ?s4) = session_papers ?s4"
    by (rule filter_all_titles) (simp only: t4, simp)
  ultimately have c: "map_option papers (comparison_result ?s5) = Some (session_papers ?s4)"
    by simp
  then obtain c where "comparison_result ?s5 = Some c" and "papers c = session_papers ?s4"
    by auto
  moreover have "length (session_papers ?s4) = 6"
    using arg_cong [OF t4, of length] by simp
  ultimately have "map_option (\<lambda>c. map title (papers c)) (comparison_result ?s5) =
         Some [''A'', ''B'', ''A'', ''B'', ''A'', ''B''] \<and>
       map_option (\<lambda>c. length (papers c)) (comparison_result ?s5) = Some 6"
    using t4 by simp
  then show ?thesis by (simp only: Let_def run_def fold_simps)
qed

end
